theory Spec2Isabelle
  imports Main "HOL-Library.AList"
begin

section \<open>Data model\<close>

text \<open>
  The analyses keep their state in Python dictionaries. A dictionary is modelled as an
  association list in insertion order: \<open>map_of\<close> is the lookup \<open>d[k]\<close> (\<open>None\<close> where
  Python raises \<open>KeyError\<close>), \<open>AList.update\<close> is the assignment \<open>d[k] = v\<close> (in place for
  a key that is present, appended otherwise), and iterating the list is iterating the
  dictionary. An object held in a registry is identified with the key it is registered
  under: distinct keys hold distinct objects.
\<close>

datatype error = KeyError

datatype outcome = Returned | Raised error

text \<open>
  A trace event as the external reader delivers it: its name, its timestamp and the
  fields of the input contract that the handlers read. Further fields (those only the
  scheduler and statedump handlers read) live in the record's extension.
\<close>

record event =
  name :: string
  timestamp :: int
  cpu_id :: int
  prev_tid :: int
  nr_dirty :: int
  nr_writeback :: int
  nr_dirtied :: int
  nr_written :: int

text \<open>
  Modelled from the spec: the class of the object stored under the key \<open>"fd"\<close> of a
  system-call context, declared in \<open>LTTngAnalyzes.common\<close>, which is not among the
  sources. It is the spec's file-descriptor binding, with the two attributes that
  \<open>block_dirty_buffer\<close> reads.
\<close>

record FD =
  filename :: string
  fd :: int

text \<open>
  Modelled from the spec: the type of \<open>Process.current_syscall\<close>, declared in
  \<open>LTTngAnalyzes.common\<close>, which is not among the sources. The spec's SyscallContext has a
  \<open>name\<close>, an optional file-descriptor binding and a map of scratch counters (where
  \<open>"alloc"\<close> lives, under keys other than \<open>"name"\<close> and \<open>"fd"\<close>). Every part may be
  absent, since the code tests for the keys; the dictionary is empty when all parts are.
\<close>

record syscall =
  sc_name :: "string option"
  sc_fd :: "FD option"
  scratch :: "(string \<times> int) list"

definition keys_syscall :: "syscall \<Rightarrow> string list" where
  "keys_syscall cs =
     (case sc_name cs of None \<Rightarrow> [] | Some _ \<Rightarrow> [''name'']) @
     (case sc_fd cs of None \<Rightarrow> [] | Some _ \<Rightarrow> [''fd'']) @
     map fst (scratch cs)"

text \<open>
  Modelled from the spec: the classes \<open>Process\<close> and \<open>CPU\<close> of \<open>LTTngAnalyzes.common\<close>
  (not among the sources), with the attributes the spec's data model gives a Thread and
  a CPU.
\<close>

record thread =
  pid :: int
  comm :: string
  perf :: "(string \<times> int) list"
  allocated_pages :: int
  freed_pages :: int
  current_syscall :: syscall

record cpu =
  current_tid :: int

text \<open>The dictionary \<open>mm\<close> with the four keys that \<open>Mm.__init__\<close> sets.\<close>

record mm_stats =
  mm_allocated_pages :: int
  mm_freed_pages :: int
  mm_count :: int
  mm_dirty :: int

text \<open>
  The dictionary \<open>dirty_pages\<close>. An entry of \<open>pages\<close> is
  \<open>(p, name, filename, fd)\<close>; the thread object \<open>p\<close> is held by its tid.
\<close>

record dirty_log =
  pages :: "(int \<times> string \<times> string \<times> int) list"
  global_nr_dirty :: int
  base_nr_dirty :: int

text \<open>
  The state that the analyses share. \<open>dirty_pages\<close> is optional because
  \<open>block_dirty_buffer\<close> tests it against \<open>None\<close>; the constructor of \<open>Mm\<close> writes into
  it, so that it is set in every state that \<open>Mm_init\<close> yields.
\<close>

record state =
  mm :: mm_stats
  cpus :: "(int \<times> cpu) list"
  tids :: "(int \<times> thread) list"
  dirty_pages :: "dirty_log option"

text \<open>
  A formatted timestamp. \<open>ns_to_hour_nsec\<close> is not among the sources and the other format
  goes through floating point, so the two strings are kept symbolic.
\<close>

datatype timestr = Ns_to_hour_nsec int | Unix_seconds int

section \<open>Memory event correlator (\<open>LTTngAnalyzes/mm.py\<close>)\<close>

definition Mm_init :: "(int \<times> cpu) list \<Rightarrow> (int \<times> thread) list \<Rightarrow> state" where
  "Mm_init cpus0 tids0 =
     \<lparr>mm = \<lparr>mm_allocated_pages = 0, mm_freed_pages = 0, mm_count = 0, mm_dirty = 0\<rparr>,
      cpus = cpus0,
      tids = tids0,
      dirty_pages = Some \<lparr>pages = [], global_nr_dirty = - 1, base_nr_dirty = - 1\<rparr>\<rparr>"

text \<open>The thread scheduled on the event's CPU, with the key it is registered under.\<close>

definition get_current_proc ::
    "'x event_scheme \<Rightarrow> state \<Rightarrow> error + (int \<times> thread) option" where
  "get_current_proc ev s =
     (case map_of (cpus s) (cpu_id ev) of
        None \<Rightarrow> Inr None
      | Some c \<Rightarrow>
          if current_tid c = - 1 then Inr None
          else (case map_of (tids s) (current_tid c) of
                  None \<Rightarrow> Inl KeyError
                | Some t \<Rightarrow> Inr (Some (current_tid c, t))))"

text \<open>The body of the loop of \<open>page_alloc\<close> over \<open>self.tids.values()\<close>.\<close>

definition alloc_scratch :: "thread \<Rightarrow> thread" where
  "alloc_scratch p =
     (let cs = current_syscall p in
      if length (keys_syscall cs) = 0 then p
      else (case map_of (scratch cs) ''alloc'' of
              None \<Rightarrow> p\<lparr>current_syscall := cs\<lparr>scratch := AList.update ''alloc'' 1 (scratch cs)\<rparr>\<rparr>
            | Some n \<Rightarrow>
                p\<lparr>current_syscall := cs\<lparr>scratch := AList.update ''alloc'' (n + 1) (scratch cs)\<rparr>\<rparr>))"

fun page_alloc_loop :: "(int \<times> thread) list \<Rightarrow> (int \<times> thread) list" where
  "page_alloc_loop [] = []"
| "page_alloc_loop ((k, p) # ps) = (k, alloc_scratch p) # page_alloc_loop ps"

definition page_alloc :: "'x event_scheme \<Rightarrow> state \<Rightarrow> outcome \<times> state" where
  "page_alloc ev s =
     (let s1 = s\<lparr>mm := (mm s)\<lparr>mm_count := mm_count (mm s) + 1\<rparr>\<rparr>;
          s2 = s1\<lparr>mm := (mm s1)\<lparr>mm_allocated_pages := mm_allocated_pages (mm s1) + 1\<rparr>\<rparr>;
          s3 = s2\<lparr>tids := page_alloc_loop (tids s2)\<rparr>
      in case get_current_proc ev s3 of
           Inl e \<Rightarrow> (Raised e, s3)
         | Inr None \<Rightarrow> (Returned, s3)
         | Inr (Some (k, t)) \<Rightarrow>
             (Returned,
              s3\<lparr>tids := AList.update k (t\<lparr>allocated_pages := allocated_pages t + 1\<rparr>) (tids s3)\<rparr>))"

definition page_free :: "'x event_scheme \<Rightarrow> state \<Rightarrow> outcome \<times> state" where
  "page_free ev s =
     (let s1 = s\<lparr>mm := (mm s)\<lparr>mm_freed_pages := mm_freed_pages (mm s) + 1\<rparr>\<rparr> in
      if mm_count (mm s1) = 0 then (Returned, s1)
      else
        let s2 = s1\<lparr>mm := (mm s1)\<lparr>mm_count := mm_count (mm s1) - 1\<rparr>\<rparr> in
        case get_current_proc ev s2 of
          Inl e \<Rightarrow> (Raised e, s2)
        | Inr None \<Rightarrow> (Returned, s2)
        | Inr (Some (k, t)) \<Rightarrow>
            (Returned,
             s2\<lparr>tids := AList.update k (t\<lparr>freed_pages := freed_pages t + 1\<rparr>) (tids s2)\<rparr>))"

definition block_dirty_buffer :: "'x event_scheme \<Rightarrow> state \<Rightarrow> outcome \<times> state" where
  "block_dirty_buffer ev s =
     (let s1 = s\<lparr>mm := (mm s)\<lparr>mm_dirty := mm_dirty (mm s) + 1\<rparr>\<rparr> in
      case map_of (cpus s1) (cpu_id ev) of
        None \<Rightarrow> (Returned, s1)
      | Some c \<Rightarrow>
          if current_tid c \<le> 0 then (Returned, s1)
          else (case map_of (tids s1) (current_tid c) of
                  None \<Rightarrow> (Raised KeyError, s1)
                | Some p \<Rightarrow>
                    let cs = current_syscall p in
                    if length (keys_syscall cs) = 0 then (Returned, s1)
                    else (case dirty_pages s1 of
                            None \<Rightarrow> (Returned, s1)
                          | Some dp \<Rightarrow>
                              (case sc_fd cs of
                                 None \<Rightarrow> (Returned, s1)
                               | Some f \<Rightarrow>
                                   (case sc_name cs of
                                      None \<Rightarrow> (Raised KeyError, s1)
                                    | Some n \<Rightarrow>
                                        (Returned,
                                         s1\<lparr>dirty_pages :=
                                              Some (dp\<lparr>pages := pages dp @
                                                [(current_tid c, n, filename f, fd f)]\<rparr>)\<rparr>))))))"

text \<open>
  The summary line is returned as the tuple of the values that are formatted into it:
  the timestamp, \<open>count\<close>, \<open>dirty\<close> and the four kernel counters of the event.
\<close>

definition writeback_global_dirty_state ::
    "'x event_scheme \<Rightarrow> state \<Rightarrow> (timestr \<times> int \<times> int \<times> int \<times> int \<times> int \<times> int) \<times> state" where
  "writeback_global_dirty_state ev s =
     ((Ns_to_hour_nsec (timestamp ev), mm_count (mm s), mm_dirty (mm s), nr_dirty ev,
       nr_writeback ev, nr_dirtied ev, nr_written ev),
      s\<lparr>mm := (mm s)\<lparr>mm_dirty := 0\<rparr>\<rparr>)"

text \<open>
  The handlers are called by an event loop that is not among the sources. The loop below
  dispatches page-alloc and page-free events by kind; an exception that a handler raises
  ends it, with the state as the handler left it.
\<close>

datatype 'x mm_event = Page_alloc "'x event_scheme" | Page_free "'x event_scheme"

fun dispatch_mm :: "'x mm_event \<Rightarrow> state \<Rightarrow> outcome \<times> state" where
  "dispatch_mm (Page_alloc ev) s = page_alloc ev s"
| "dispatch_mm (Page_free ev) s = page_free ev s"

fun run_mm :: "'x mm_event list \<Rightarrow> state \<Rightarrow> outcome \<times> state" where
  "run_mm [] s = (Returned, s)"
| "run_mm (e # es) s =
     (case dispatch_mm e s of
        (Returned, s') \<Rightarrow> run_mm es s'
      | (Raised x, s') \<Rightarrow> (Raised x, s'))"

section \<open>Performance counter analysis (\<open>perf-info.py\<close>)\<close>

subsection \<open>Python's \<open>str\<close> on integers, \<open>startswith\<close> and truth values\<close>

fun str_nat :: "nat \<Rightarrow> string" where
  "str_nat n =
     (if n < 10 then [''0123456789'' ! n]
      else str_nat (n div 10) @ [''0123456789'' ! (n mod 10)])"

declare str_nat.simps [simp del]

definition str_int :: "int \<Rightarrow> string" where
  "str_int i = (if i < 0 then CHR ''-'' # str_nat (nat (- i)) else str_nat (nat i))"

definition startswith :: "string \<Rightarrow> string \<Rightarrow> bool" where
  "startswith s p = (take (length p) s = p)"

text \<open>A list or string option is true when it is set and not empty, an integer option
  when it is set and not 0.\<close>

definition truthy :: "'a list option \<Rightarrow> bool" where
  "truthy x = (case x of None \<Rightarrow> False | Some xs \<Rightarrow> xs \<noteq> [])"

definition truthy_int :: "int option \<Rightarrow> bool" where
  "truthy_int x = (case x of None \<Rightarrow> False | Some n \<Rightarrow> n \<noteq> 0)"

subsection \<open>Configuration and state of the analysis\<close>

text \<open>
  The options as \<open>__main__\<close> hands them over: \<open>args.tid\<close> is \<open>None\<close> or the list of the
  strings between commas, \<open>args.start\<close> and \<open>args.end\<close> are in nanoseconds.
\<close>

record args =
  args_tid :: "string list option"
  args_pname :: "string option"
  args_start :: "int option"
  args_end :: "int option"
  args_unixtime :: bool
  args_delta :: bool
  args_json :: "string option"
  args_mongo :: "string option"
  args_quiet :: bool

text \<open>
  A value of \<open>json_metadata\<close>: \<open>{'pname': ..., 'threads': {tid_str: {'pname': ...}}}\<close>.
  A thread's dictionary has the one key \<open>'pname'\<close> and is held as its value.
\<close>

record metadatum =
  pname :: string
  threads :: "(string \<times> string) list"

text \<open>
  A printed line is kept as the values that \<open>PERF_FORMAT\<close> lays out in columns:
  time, comm, tid, counter name and value.
\<close>

type_synonym perf_line = "timestr \<times> string \<times> int \<times> string \<times> int"

definition line_tid :: "perf_line \<Rightarrow> int" where
  "line_tid l = (case l of (ts, c, tid, context, v) \<Rightarrow> tid)"

text \<open>
  The \<open>Perf\<close> object: \<open>self.state\<close>, the output buffer \<open>self.perf\<close>, \<open>self.json_metadata\<close>
  and what it has printed.
\<close>

record Perf =
  self_state :: state
  self_perf :: "(string \<times> int) list list"
  self_json_metadata :: "(int \<times> metadatum) list"
  stdout :: "perf_line list"

definition Perf_init :: "state \<Rightarrow> Perf" where
  "Perf_init st = \<lparr>self_state = st, self_perf = [], self_json_metadata = [], stdout = []\<rparr>"

subsection \<open>The record emitter\<close>

definition log_perf_event_json ::
    "timestr \<Rightarrow> string \<Rightarrow> int \<Rightarrow> int \<Rightarrow> (string \<times> int) list \<Rightarrow> Perf \<Rightarrow> Perf" where
  "log_perf_event_json ts comm' tid pid' ret P =
     (let md = self_json_metadata P;
          md' =
            (if pid' = tid then
               (case map_of md pid' of
                  None \<Rightarrow> AList.update pid' \<lparr>pname = comm', threads = []\<rparr> md
                | Some m \<Rightarrow>
                    if pname m \<noteq> comm' then AList.update pid' (m\<lparr>pname := comm'\<rparr>) md else md)
             else
               (let m = (case map_of md pid' of
                           None \<Rightarrow> \<lparr>pname = ''unknown'', threads = []\<rparr>
                         | Some m \<Rightarrow> m);
                    md1 = (case map_of md pid' of
                             None \<Rightarrow> AList.update pid' m md
                           | Some _ \<Rightarrow> md);
                    tid_str = str_int tid
                in case map_of (threads m) tid_str of
                     None \<Rightarrow>
                       AList.update pid' (m\<lparr>threads := AList.update tid_str comm' (threads m)\<rparr>) md1
                   | Some pn \<Rightarrow>
                       if pn \<noteq> comm'
                       then AList.update pid'
                              (m\<lparr>threads := AList.update tid_str comm' (threads m)\<rparr>) md1
                       else md1))
      in P\<lparr>self_json_metadata := md', self_perf := self_perf P @ [ret]\<rparr>)"

text \<open>
  The loop of \<open>output_perf\<close> over the keys of \<open>ret\<close>, each with the value \<open>ret[context]\<close>;
  it carries the flag \<open>insert\<close> and the lines printed so far.
\<close>

fun output_perf_loop ::
    "args \<Rightarrow> timestr \<Rightarrow> string \<Rightarrow> int \<Rightarrow> (string \<times> int) list \<Rightarrow> bool \<times> perf_line list \<Rightarrow>
     bool \<times> perf_line list" where
  "output_perf_loop args endtime comm' tid [] acc = acc"
| "output_perf_loop args endtime comm' tid ((context, v) # rest) (insert', out) =
     (if startswith context ''perf_'' then
        output_perf_loop args endtime comm' tid rest
          (if truthy (args_json args) \<or> truthy (args_mongo args) then True else insert',
           if \<not> args_quiet args then out @ [(endtime, comm', tid, context, v)] else out)
      else output_perf_loop args endtime comm' tid rest (insert', out))"

definition output_perf ::
    "args \<Rightarrow> 'x event_scheme \<Rightarrow> (string \<times> int) list \<Rightarrow> Perf \<Rightarrow> outcome \<times> Perf" where
  "output_perf args ev ret P =
     (let tid = prev_tid ev in
      if (case args_tid args of None \<Rightarrow> False | Some l \<Rightarrow> l \<noteq> [] \<and> str_int tid \<notin> set l)
      then (Returned, P)
      else
        case map_of (tids (self_state P)) tid of
          None \<Rightarrow> (Raised KeyError, P)
        | Some t \<Rightarrow>
            let pid' = (if pid t = - 1 then tid else pid t);
                comm' = comm t
            in
            if (case args_pname args of None \<Rightarrow> False | Some p \<Rightarrow> p \<noteq> comm')
            then (Returned, P)
            else if name ev \<noteq> ''sched_switch'' then (Returned, P)
            else
              let endtime = timestamp ev in
              if (case args_start args of None \<Rightarrow> False | Some a \<Rightarrow> a \<noteq> 0 \<and> endtime < a)
              then (Returned, P)
              else if (case args_end args of None \<Rightarrow> False | Some b \<Rightarrow> b \<noteq> 0 \<and> endtime > b)
              then (Returned, P)
              else
                let endtime' = (if \<not> args_unixtime args then Ns_to_hour_nsec endtime
                                else Unix_seconds endtime);
                    (insert', out) =
                      output_perf_loop args endtime' comm' tid ret (False, stdout P);
                    P1 = P\<lparr>stdout := out\<rparr>
                in if insert'
                   then (Returned, log_perf_event_json endtime' comm' tid pid' ret P1)
                   else (Returned, P1))"

subsection \<open>Event processing\<close>

text \<open>
  The loop of \<open>process_event\<close> that fills the record \<open>d\<close> from the delta map \<open>ret\<close>. Reading
  the cumulative value raises \<open>KeyError\<close> where the thread or its counter is missing.
\<close>

fun collect ::
    "args \<Rightarrow> string list option \<Rightarrow> state \<Rightarrow> int \<Rightarrow> (string \<times> int) list \<Rightarrow> (string \<times> int) list \<Rightarrow>
     error + (string \<times> int) list" where
  "collect args types st tid [] d = Inr d"
| "collect args types st tid ((context, v) # rest) d =
     (if (case types of None \<Rightarrow> False | Some l \<Rightarrow> l \<noteq> [] \<and> context \<notin> set l)
      then collect args types st tid rest d
      else if startswith context ''perf_'' then
        (if args_delta args then collect args types st tid rest (AList.update context v d)
         else (case map_of (tids st) tid of
                 None \<Rightarrow> Inl KeyError
               | Some t \<Rightarrow>
                   (case map_of (perf t) context of
                      None \<Rightarrow> Inl KeyError
                    | Some c \<Rightarrow> collect args types st tid rest (AList.update context c d))))
      else collect args types st tid rest d)"

text \<open>
  \<open>self.state.sched.switch\<close> and \<open>self.state.statedump.process_state\<close> are not among the
  sources: they are the parameters \<open>switch\<close>, which returns the delta map and the new
  analysis state, and \<open>process_state\<close>.
\<close>

definition process_event ::
    "('x event_scheme \<Rightarrow> state \<Rightarrow> (string \<times> int) list \<times> state) \<Rightarrow>
     ('x event_scheme \<Rightarrow> state \<Rightarrow> state) \<Rightarrow>
     args \<Rightarrow> string list option \<Rightarrow> 'x event_scheme \<Rightarrow> Perf \<Rightarrow> outcome \<times> Perf" where
  "process_event switch process_state args types ev P =
     (if name ev = ''sched_switch'' then
        (case switch ev (self_state P) of
           (ret, st) \<Rightarrow>
             let P1 = P\<lparr>self_state := st\<rparr>;
                 tid = prev_tid ev
             in if length ret > 0 then
                  (case collect args types st tid ret [(''ts'', timestamp ev), (''tid'', tid)] of
                     Inl e \<Rightarrow> (Raised e, P1)
                   | Inr d \<Rightarrow> output_perf args ev d P1)
                else (Returned, P1))
      else if name ev = ''lttng_statedump_process_state''
      then (Returned, P\<lparr>self_state := process_state ev (self_state P)\<rparr>)
      else (Returned, P))"

text \<open>The event loop of \<open>run\<close>; an exception ends it. The sinks that \<open>run\<close> calls after
  the loop write files and a database and are not modelled.\<close>

fun run ::
    "('x event_scheme \<Rightarrow> state \<Rightarrow> (string \<times> int) list \<times> state) \<Rightarrow>
     ('x event_scheme \<Rightarrow> state \<Rightarrow> state) \<Rightarrow>
     args \<Rightarrow> string list option \<Rightarrow> 'x event_scheme list \<Rightarrow> Perf \<Rightarrow> outcome \<times> Perf" where
  "run switch process_state args types [] P = (Returned, P)"
| "run switch process_state args types (ev # evs) P =
     (case process_event switch process_state args types ev P of
        (Returned, P') \<Rightarrow> run switch process_state args types evs P'
      | (Raised e, P') \<Rightarrow> (Raised e, P'))"

subsection \<open>The filters of the record emitter, in the words of the spec\<close>

text \<open>
  The spec gives three filters: the thread id must be in the tid allow-list (an empty
  allow-list filters nothing), the process name filter, if set, must equal \<open>comm\<close>, and
  the timestamp must lie in the window from start to end (unbounded where unset). A
  bound of 0 counts as unset, as it does in \<open>__main__\<close>.
\<close>

definition tid_allowed :: "args \<Rightarrow> int \<Rightarrow> bool" where
  "tid_allowed args tid =
     (case args_tid args of None \<Rightarrow> True | Some l \<Rightarrow> l = [] \<or> str_int tid \<in> set l)"

definition pname_allowed :: "args \<Rightarrow> string \<Rightarrow> bool" where
  "pname_allowed args comm' = (case args_pname args of None \<Rightarrow> True | Some p \<Rightarrow> p = comm')"

definition in_window :: "args \<Rightarrow> int \<Rightarrow> bool" where
  "in_window args ts =
     ((case args_start args of None \<Rightarrow> True | Some a \<Rightarrow> a = 0 \<or> a \<le> ts) \<and>
      (case args_end args of None \<Rightarrow> True | Some b \<Rightarrow> b = 0 \<or> ts \<le> b))"

text \<open>
  The records of one run are exactly those of another that have \<open>tid == T\<close>: the records
  of the output buffer and the printed lines.
\<close>

definition tid_subset :: "int \<Rightarrow> Perf \<Rightarrow> Perf \<Rightarrow> bool" where
  "tid_subset T PF PU =
     (self_perf PF = filter (\<lambda>d. map_of d ''tid'' = Some T) (self_perf PU) \<and>
      stdout PF = filter (\<lambda>l. line_tid l = T) (stdout PU))"

section \<open>Example inputs\<close>

definition example_event :: event where
  "example_event =
     \<lparr>name = ''mm_page_alloc'', timestamp = 6, cpu_id = 0, prev_tid = 0, nr_dirty = 0,
      nr_writeback = 0, nr_dirtied = 0, nr_written = 0\<rparr>"

definition example_thread :: thread where
  "example_thread =
     \<lparr>pid = 200, comm = ''a'', perf = [], allocated_pages = 0, freed_pages = 0,
      current_syscall = \<lparr>sc_name = None, sc_fd = None, scratch = []\<rparr>\<rparr>"

definition example_thread_in_syscall :: thread where
  "example_thread_in_syscall =
     \<lparr>pid = 100, comm = ''b'', perf = [], allocated_pages = 0, freed_pages = 0,
      current_syscall =
        \<lparr>sc_name = Some ''write'', sc_fd = Some \<lparr>filename = ''/tmp/f'', fd = 3\<rparr>,
         scratch = []\<rparr>\<rparr>"

definition example_switch_event :: event where
  "example_switch_event =
     \<lparr>name = ''sched_switch'', timestamp = 5, cpu_id = 0, prev_tid = 100, nr_dirty = 0,
      nr_writeback = 0, nr_dirtied = 0, nr_written = 0\<rparr>"

definition example_perf_thread :: thread where
  "example_perf_thread =
     \<lparr>pid = 100, comm = ''a'', perf = [(''perf_x'', 25)], allocated_pages = 0, freed_pages = 0,
      current_syscall = \<lparr>sc_name = None, sc_fd = None, scratch = []\<rparr>\<rparr>"

definition example_args :: args where
  "example_args =
     \<lparr>args_tid = None, args_pname = None, args_start = None, args_end = None,
      args_unixtime = False, args_delta = False, args_json = None, args_mongo = None,
      args_quiet = False\<rparr>"

section \<open>Properties of the memory event correlator\<close>

subsection \<open>The handlers, unfolded\<close>

lemma map_of_page_alloc_loop:
  "map_of (page_alloc_loop ts) k = map_option alloc_scratch (map_of ts k)"
  by (induction ts rule: page_alloc_loop.induct) simp_all

lemma get_current_proc_loop:
  "get_current_proc ev (s\<lparr>tids := page_alloc_loop (tids s)\<rparr>) =
     (case get_current_proc ev s of
        Inl e \<Rightarrow> Inl e
      | Inr None \<Rightarrow> Inr None
      | Inr (Some (k, t)) \<Rightarrow> Inr (Some (k, alloc_scratch t)))"
  by (simp add: get_current_proc_def map_of_page_alloc_loop split: option.splits)

lemma get_current_proc_mm [simp]:
  "get_current_proc ev (s\<lparr>mm := m\<rparr>) = get_current_proc ev s"
  by (simp add: get_current_proc_def split: option.splits)

lemma page_alloc_unfold:
  "page_alloc ev s =
     (let m = (mm s)\<lparr>mm_count := mm_count (mm s) + 1,
                      mm_allocated_pages := mm_allocated_pages (mm s) + 1\<rparr>;
          ts = page_alloc_loop (tids s)
      in case get_current_proc ev s of
           Inl e \<Rightarrow> (Raised e, s\<lparr>mm := m, tids := ts\<rparr>)
         | Inr None \<Rightarrow> (Returned, s\<lparr>mm := m, tids := ts\<rparr>)
         | Inr (Some (k, t)) \<Rightarrow>
             (Returned,
              s\<lparr>mm := m,
                tids := AList.update k
                  ((alloc_scratch t)\<lparr>allocated_pages := allocated_pages t + 1\<rparr>) ts\<rparr>))"
  by (simp add: page_alloc_def Let_def get_current_proc_loop alloc_scratch_def
      split: sum.splits option.splits prod.splits)

lemma get_current_proc_Some:
  "get_current_proc ev s = Inr (Some (k, t)) \<longleftrightarrow>
     (\<exists>c. map_of (cpus s) (cpu_id ev) = Some c \<and> current_tid c = k \<and> k \<noteq> - 1 \<and>
          map_of (tids s) k = Some t)"
  by (auto simp: get_current_proc_def split: option.splits)

lemma get_current_proc_None:
  "get_current_proc ev s = Inr None \<longleftrightarrow>
     map_of (cpus s) (cpu_id ev) = None \<or>
     map_option current_tid (map_of (cpus s) (cpu_id ev)) = Some (- 1)"
  by (auto simp: get_current_proc_def split: option.splits)

lemma get_current_proc_KeyError:
  "get_current_proc ev s = Inl e \<longleftrightarrow>
     (\<exists>c. map_of (cpus s) (cpu_id ev) = Some c \<and> current_tid c \<noteq> - 1 \<and>
          map_of (tids s) (current_tid c) = None)"
  by (cases e) (auto simp: get_current_proc_def split: option.splits)

lemma page_free_unfold:
  "page_free ev s =
     (if mm_count (mm s) = 0
      then (Returned, s\<lparr>mm := (mm s)\<lparr>mm_freed_pages := mm_freed_pages (mm s) + 1\<rparr>\<rparr>)
      else
        let m = (mm s)\<lparr>mm_freed_pages := mm_freed_pages (mm s) + 1,
                        mm_count := mm_count (mm s) - 1\<rparr>
        in case get_current_proc ev s of
             Inl e \<Rightarrow> (Raised e, s\<lparr>mm := m\<rparr>)
           | Inr None \<Rightarrow> (Returned, s\<lparr>mm := m\<rparr>)
           | Inr (Some (k, t)) \<Rightarrow>
               (Returned,
                s\<lparr>mm := m,
                  tids := AList.update k (t\<lparr>freed_pages := freed_pages t + 1\<rparr>) (tids s)\<rparr>))"
  by (simp add: page_free_def Let_def split: sum.splits option.splits prod.splits)

lemma block_dirty_buffer_outcome:
  "map_of (cpus s) (cpu_id ev) = Some c \<Longrightarrow> 0 < current_tid c \<Longrightarrow>
   map_of (tids s) (current_tid c) = None \<Longrightarrow>
   block_dirty_buffer ev s =
     (Raised KeyError, s\<lparr>mm := (mm s)\<lparr>mm_dirty := mm_dirty (mm s) + 1\<rparr>\<rparr>)"
  by (simp add: block_dirty_buffer_def Let_def)

lemma block_dirty_buffer_skip:
  "map_of (cpus s) (cpu_id ev) = None \<or>
   (\<exists>c. map_of (cpus s) (cpu_id ev) = Some c \<and> current_tid c \<le> 0) \<Longrightarrow>
   block_dirty_buffer ev s = (Returned, s\<lparr>mm := (mm s)\<lparr>mm_dirty := mm_dirty (mm s) + 1\<rparr>\<rparr>)"
  by (auto simp: block_dirty_buffer_def Let_def)

subsection \<open>Page free\<close>

text \<open>
  C1. A page-free event increments \<open>Global.freed_pages\<close> and decrements \<open>Global.count\<close>
  unless it is 0. The claim also has the thread on the event's CPU credited whether or
  not the decrement was skipped; the code returns before the attribution when \<open>count\<close> is
  0. The theorem states what the handler does there: only \<open>freed_pages\<close> of the global
  statistics changes, and no thread is credited, attributable or not.
\<close>

theorem page_free_at_count_zero:
  "mm_count (mm s) = 0 \<Longrightarrow>
   page_free ev s =
     (Returned, s\<lparr>mm := (mm s)\<lparr>mm_freed_pages := mm_freed_pages (mm s) + 1\<rparr>\<rparr>)"
  by (simp add: page_free_unfold)

theorem page_free_at_count_zero_witness:
  "mm_count (mm (Mm_init [(0, \<lparr>current_tid = 7\<rparr>)] [(7, example_thread)])) = 0 \<and>
   get_current_proc example_event (Mm_init [(0, \<lparr>current_tid = 7\<rparr>)] [(7, example_thread)]) =
     Inr (Some (7, example_thread)) \<and>
   fst (page_free example_event (Mm_init [(0, \<lparr>current_tid = 7\<rparr>)] [(7, example_thread)])) =
     Returned \<and>
   mm_freed_pages (mm (snd (page_free example_event
     (Mm_init [(0, \<lparr>current_tid = 7\<rparr>)] [(7, example_thread)])))) = 1 \<and>
   map_option freed_pages (map_of (tids (snd (page_free example_event
     (Mm_init [(0, \<lparr>current_tid = 7\<rparr>)] [(7, example_thread)])))) 7) = Some 0"
  using page_free_at_count_zero
    [of "Mm_init [(0, \<lparr>current_tid = 7\<rparr>)] [(7, example_thread)]" example_event]
  by (simp add: Mm_init_def get_current_proc_def example_event_def example_thread_def)

subsection \<open>Events that cannot be attributed\<close>

text \<open>
  C2, as the claim states it, fails: a CPU whose \<open>current_tid\<close> is a tid that is not
  registered makes each of the three handlers raise \<open>KeyError\<close>. Here CPU 0 runs tid 5
  and only tid 7 is registered.
\<close>

theorem unregistered_tid_raises:
  "map_of (cpus (Mm_init [(0, \<lparr>current_tid = 5\<rparr>)] [(7, example_thread)]))
     (cpu_id example_event) = Some \<lparr>current_tid = 5\<rparr> \<and>
   map_of (tids (Mm_init [(0, \<lparr>current_tid = 5\<rparr>)] [(7, example_thread)])) 5 = None \<and>
   fst (page_alloc example_event (Mm_init [(0, \<lparr>current_tid = 5\<rparr>)] [(7, example_thread)])) =
     Raised KeyError \<and>
   fst (page_free example_event
     (snd (page_alloc example_event (Mm_init [(0, \<lparr>current_tid = 5\<rparr>)] [(7, example_thread)])))) =
     Raised KeyError \<and>
   fst (block_dirty_buffer example_event
     (Mm_init [(0, \<lparr>current_tid = 5\<rparr>)] [(7, example_thread)])) = Raised KeyError"
  by (simp add: Mm_init_def page_alloc_def page_free_def block_dirty_buffer_def
      get_current_proc_def example_event_def alloc_scratch_def keys_syscall_def
      example_thread_def Let_def)

text \<open>
  C2, amended. For a memory event whose CPU was never seen, or whose CPU's \<open>current_tid\<close>
  is the sentinel \<open>-1\<close>, the attribution is skipped and the handler returns: no thread's
  page counter and no entry of the dirty-page log changes. For a CPU whose \<open>current_tid\<close> is
  another tid that is not registered, the lookup raises \<open>KeyError\<close>: in \<open>page_alloc\<close>
  always, in \<open>page_free\<close> when \<open>count\<close> was not 0, in \<open>block_dirty_buffer\<close> unless the
  tid is at most 0.
\<close>

theorem unattributable_memory_event:
  "(map_of (cpus s) (cpu_id ev) = None \<or>
    map_option current_tid (map_of (cpus s) (cpu_id ev)) = Some (- 1) \<longrightarrow>
      fst (page_alloc ev s) = Returned \<and>
      tids (snd (page_alloc ev s)) = page_alloc_loop (tids s) \<and>
      fst (page_free ev s) = Returned \<and>
      tids (snd (page_free ev s)) = tids s \<and>
      fst (block_dirty_buffer ev s) = Returned \<and>
      tids (snd (block_dirty_buffer ev s)) = tids s \<and>
      dirty_pages (snd (block_dirty_buffer ev s)) = dirty_pages s) \<and>
   (map_of (cpus s) (cpu_id ev) = Some c \<and> current_tid c \<noteq> - 1 \<and>
    map_of (tids s) (current_tid c) = None \<longrightarrow>
      fst (page_alloc ev s) = Raised KeyError \<and>
      (mm_count (mm s) \<noteq> 0 \<longrightarrow> fst (page_free ev s) = Raised KeyError) \<and>
      fst (block_dirty_buffer ev s) = (if current_tid c \<le> 0 then Returned else Raised KeyError))"
proof (intro conjI impI)
  assume skip: "map_of (cpus s) (cpu_id ev) = None \<or>
    map_option current_tid (map_of (cpus s) (cpu_id ev)) = Some (- 1)"
  then have none: "get_current_proc ev s = Inr None"
    by (simp add: get_current_proc_None)
  from skip have bdb: "block_dirty_buffer ev s =
      (Returned, s\<lparr>mm := (mm s)\<lparr>mm_dirty := mm_dirty (mm s) + 1\<rparr>\<rparr>)"
    by (intro block_dirty_buffer_skip) auto
  show "fst (page_alloc ev s) = Returned"
    and "tids (snd (page_alloc ev s)) = page_alloc_loop (tids s)"
    using none by (simp_all add: page_alloc_unfold)
  show "fst (page_free ev s) = Returned" and "tids (snd (page_free ev s)) = tids s"
    using none by (simp_all add: page_free_unfold)
  show "fst (block_dirty_buffer ev s) = Returned"
    and "tids (snd (block_dirty_buffer ev s)) = tids s"
    and "dirty_pages (snd (block_dirty_buffer ev s)) = dirty_pages s"
    using bdb by simp_all
next
  assume unreg: "map_of (cpus s) (cpu_id ev) = Some c \<and> current_tid c \<noteq> - 1 \<and>
    map_of (tids s) (current_tid c) = None"
  then have err: "get_current_proc ev s = Inl KeyError"
    by (simp add: get_current_proc_KeyError)
  show "fst (page_alloc ev s) = Raised KeyError"
    using err by (simp add: page_alloc_unfold)
  show "fst (page_free ev s) = Raised KeyError" if "mm_count (mm s) \<noteq> 0"
    using err that by (simp add: page_free_unfold)
  show "fst (block_dirty_buffer ev s) =
      (if current_tid c \<le> 0 then Returned else Raised KeyError)"
  proof (cases "current_tid c \<le> 0")
    case True
    with unreg have "block_dirty_buffer ev s =
        (Returned, s\<lparr>mm := (mm s)\<lparr>mm_dirty := mm_dirty (mm s) + 1\<rparr>\<rparr>)"
      by (intro block_dirty_buffer_skip) auto
    with True show ?thesis by simp
  next
    case False
    with unreg show ?thesis
      by (simp add: block_dirty_buffer_outcome)
  qed
qed

theorem unattributable_memory_event_witness:
  "map_of (cpus (Mm_init [] [(7, example_thread)])) (cpu_id example_event) = None \<and>
   fst (page_alloc example_event (Mm_init [] [(7, example_thread)])) = Returned \<and>
   fst (page_free example_event (Mm_init [] [(7, example_thread)])) = Returned \<and>
   fst (block_dirty_buffer example_event (Mm_init [] [(7, example_thread)])) = Returned \<and>
   map_of (cpus (Mm_init [(0, \<lparr>current_tid = 5\<rparr>)] [(7, example_thread)]))
     (cpu_id example_event) = Some \<lparr>current_tid = 5\<rparr> \<and>
   map_of (tids (Mm_init [(0, \<lparr>current_tid = 5\<rparr>)] [(7, example_thread)])) 5 = None \<and>
   fst (page_alloc example_event (Mm_init [(0, \<lparr>current_tid = 5\<rparr>)] [(7, example_thread)])) =
     Raised KeyError \<and>
   fst (block_dirty_buffer example_event
     (Mm_init [(0, \<lparr>current_tid = 5\<rparr>)] [(7, example_thread)])) = Raised KeyError \<and>
   mm_count (mm ((Mm_init [(0, \<lparr>current_tid = 5\<rparr>)] [(7, example_thread)])
     \<lparr>mm := \<lparr>mm_allocated_pages = 1, mm_freed_pages = 0, mm_count = 1, mm_dirty = 0\<rparr>\<rparr>)) = 1 \<and>
   fst (page_free example_event ((Mm_init [(0, \<lparr>current_tid = 5\<rparr>)] [(7, example_thread)])
     \<lparr>mm := \<lparr>mm_allocated_pages = 1, mm_freed_pages = 0, mm_count = 1, mm_dirty = 0\<rparr>\<rparr>)) =
     Raised KeyError"
  using unattributable_memory_event
    [of "Mm_init [] [(7, example_thread)]" example_event undefined]
    unattributable_memory_event
    [of "Mm_init [(0, \<lparr>current_tid = 5\<rparr>)] [(7, example_thread)]" example_event
        "\<lparr>current_tid = 5\<rparr>"]
    unattributable_memory_event
    [of "(Mm_init [(0, \<lparr>current_tid = 5\<rparr>)] [(7, example_thread)])
           \<lparr>mm := \<lparr>mm_allocated_pages = 1, mm_freed_pages = 0, mm_count = 1, mm_dirty = 0\<rparr>\<rparr>"
        example_event "\<lparr>current_tid = 5\<rparr>"]
  by (simp add: Mm_init_def example_event_def)



subsection \<open>Page allocation\<close>

lemma alloc_scratch_eq:
  "alloc_scratch p =
     p\<lparr>current_syscall :=
         (if keys_syscall (current_syscall p) = [] then current_syscall p
          else (current_syscall p)\<lparr>scratch :=
            AList.update ''alloc''
              (case map_of (scratch (current_syscall p)) ''alloc'' of
                 None \<Rightarrow> 1 | Some n \<Rightarrow> n + 1)
              (scratch (current_syscall p))\<rparr>)\<rparr>"
  by (simp add: alloc_scratch_def Let_def split: option.splits)

lemma page_alloc_thread:
  assumes reg: "map_of (tids s) k = Some p"
  shows "map_of (tids (snd (page_alloc ev s))) k =
           Some ((alloc_scratch p)\<lparr>allocated_pages :=
                   (if map_option current_tid (map_of (cpus s) (cpu_id ev)) = Some k \<and> k \<noteq> - 1
                    then allocated_pages p + 1 else allocated_pages p)\<rparr>)"
proof -
  define target where
    "target \<longleftrightarrow> map_option current_tid (map_of (cpus s) (cpu_id ev)) = Some k \<and> k \<noteq> - 1"
  have loop: "map_of (page_alloc_loop (tids s)) k = Some (alloc_scratch p)"
    using reg by (simp add: map_of_page_alloc_loop)
  have same: "(alloc_scratch p)\<lparr>allocated_pages := allocated_pages p\<rparr> = alloc_scratch p"
    by (simp add: alloc_scratch_eq)
  have "map_of (tids (snd (page_alloc ev s))) k =
      Some ((alloc_scratch p)\<lparr>allocated_pages :=
              (if target then allocated_pages p + 1 else allocated_pages p)\<rparr>)"
  proof (cases "get_current_proc ev s")
    case (Inl e)
    then have "\<not> target"
      using reg by (auto simp: get_current_proc_KeyError target_def)
    then show ?thesis
      using Inl loop same by (simp add: page_alloc_unfold)
  next
    case (Inr r)
    show ?thesis
    proof (cases r)
      case None
      then have "\<not> target"
        using Inr by (auto simp: get_current_proc_None target_def)
      then show ?thesis
        using Inr None loop same by (simp add: page_alloc_unfold)
    next
      case (Some kt)
      obtain k' t where kt: "kt = (k', t)" by (cases kt)
      from Inr Some kt obtain c where c: "map_of (cpus s) (cpu_id ev) = Some c"
        "current_tid c = k'" "k' \<noteq> - 1" "map_of (tids s) k' = Some t"
        by (auto simp: get_current_proc_Some)
      show ?thesis
      proof (cases "k' = k")
        case True
        with c reg have "t = p" and "target" by (simp_all add: target_def)
        with True Inr Some kt show ?thesis
          by (simp add: page_alloc_unfold AList.update_conv')
      next
        case False
        with c have "\<not> target" by (simp add: target_def)
        with False Inr Some kt loop same show ?thesis
          by (simp add: page_alloc_unfold AList.update_conv')
      qed
    qed
  qed
  then show ?thesis by (simp only: target_def)
qed

text \<open>
  C6. A page-alloc event increments \<open>Global.allocated_pages\<close> and \<open>Global.count\<close> by one.
  In every registered thread whose system-call context is not empty the scratch counter
  \<open>alloc\<close> goes up by one, starting at 1 where it was absent; the context of the other
  threads is untouched. The exclusive counter \<open>allocated_pages\<close> goes up by one in the
  thread that is \<open>current_tid\<close> of the event's CPU, and in no other; a \<open>current_tid\<close> of \<open>-1\<close>
  selects no thread.
\<close>

theorem page_alloc_effect:
  "mm_allocated_pages (mm (snd (page_alloc ev s))) = mm_allocated_pages (mm s) + 1 \<and>
   mm_count (mm (snd (page_alloc ev s))) = mm_count (mm s) + 1 \<and>
   (\<forall>k p. map_of (tids s) k = Some p \<longrightarrow>
      map_of (tids (snd (page_alloc ev s))) k =
        Some (p\<lparr>current_syscall :=
                  (if keys_syscall (current_syscall p) = [] then current_syscall p
                   else (current_syscall p)\<lparr>scratch :=
                     AList.update ''alloc''
                       (case map_of (scratch (current_syscall p)) ''alloc'' of
                          None \<Rightarrow> 1 | Some n \<Rightarrow> n + 1)
                       (scratch (current_syscall p))\<rparr>),
                allocated_pages :=
                  (if map_option current_tid (map_of (cpus s) (cpu_id ev)) = Some k \<and> k \<noteq> - 1
                   then allocated_pages p + 1 else allocated_pages p)\<rparr>))"
proof (intro conjI allI impI)
  show "mm_allocated_pages (mm (snd (page_alloc ev s))) = mm_allocated_pages (mm s) + 1"
    by (simp add: page_alloc_unfold Let_def split: sum.splits option.splits prod.splits)
  show "mm_count (mm (snd (page_alloc ev s))) = mm_count (mm s) + 1"
    by (simp add: page_alloc_unfold Let_def split: sum.splits option.splits prod.splits)
next
  fix k p
  assume "map_of (tids s) k = Some p"
  from page_alloc_thread [OF this, of ev]
  show "map_of (tids (snd (page_alloc ev s))) k =
      Some (p\<lparr>current_syscall :=
                (if keys_syscall (current_syscall p) = [] then current_syscall p
                 else (current_syscall p)\<lparr>scratch :=
                   AList.update ''alloc''
                     (case map_of (scratch (current_syscall p)) ''alloc'' of
                        None \<Rightarrow> 1 | Some n \<Rightarrow> n + 1)
                     (scratch (current_syscall p))\<rparr>),
              allocated_pages :=
                (if map_option current_tid (map_of (cpus s) (cpu_id ev)) = Some k \<and> k \<noteq> - 1
                 then allocated_pages p + 1 else allocated_pages p)\<rparr>)"
    by (simp add: alloc_scratch_eq)
qed

theorem page_alloc_effect_witness:
  "map_of (tids (Mm_init [(0, \<lparr>current_tid = 7\<rparr>)]
      [(7, example_thread), (8, example_thread_in_syscall)])) 7 = Some example_thread \<and>
   map_of (tids (Mm_init [(0, \<lparr>current_tid = 7\<rparr>)]
      [(7, example_thread), (8, example_thread_in_syscall)])) 8 = Some example_thread_in_syscall \<and>
   map_of (tids (snd (page_alloc example_event (Mm_init [(0, \<lparr>current_tid = 7\<rparr>)]
      [(7, example_thread), (8, example_thread_in_syscall)])))) 7 =
     Some (example_thread\<lparr>allocated_pages := 1\<rparr>) \<and>
   map_of (tids (snd (page_alloc example_event (Mm_init [(0, \<lparr>current_tid = 7\<rparr>)]
      [(7, example_thread), (8, example_thread_in_syscall)])))) 8 =
     Some (example_thread_in_syscall\<lparr>current_syscall :=
       \<lparr>sc_name = Some ''write'', sc_fd = Some \<lparr>filename = ''/tmp/f'', fd = 3\<rparr>,
        scratch = [(''alloc'', 1)]\<rparr>\<rparr>)"
proof -
  let ?S = "Mm_init [(0, \<lparr>current_tid = 7\<rparr>)]
      [(7, example_thread), (8, example_thread_in_syscall)]"
  have h7: "map_of (tids ?S) 7 = Some example_thread"
    and h8: "map_of (tids ?S) 8 = Some example_thread_in_syscall"
    by (simp_all add: Mm_init_def)
  have all: "\<forall>k p. map_of (tids ?S) k = Some p \<longrightarrow>
      map_of (tids (snd (page_alloc example_event ?S))) k =
        Some (p\<lparr>current_syscall :=
                  (if keys_syscall (current_syscall p) = [] then current_syscall p
                   else (current_syscall p)\<lparr>scratch :=
                     AList.update ''alloc''
                       (case map_of (scratch (current_syscall p)) ''alloc'' of
                          None \<Rightarrow> 1 | Some n \<Rightarrow> n + 1)
                       (scratch (current_syscall p))\<rparr>),
                allocated_pages :=
                  (if map_option current_tid (map_of (cpus ?S) (cpu_id example_event)) = Some k
                      \<and> k \<noteq> - 1
                   then allocated_pages p + 1 else allocated_pages p)\<rparr>)"
    using page_alloc_effect [of example_event ?S] by blast
  have r7: "map_of (tids (snd (page_alloc example_event ?S))) 7 =
      Some (example_thread\<lparr>allocated_pages := 1\<rparr>)"
    using all [rule_format, OF h7]
    by (simp add: Mm_init_def example_event_def example_thread_def keys_syscall_def)
  have r8: "map_of (tids (snd (page_alloc example_event ?S))) 8 =
      Some (example_thread_in_syscall\<lparr>current_syscall :=
        \<lparr>sc_name = Some ''write'', sc_fd = Some \<lparr>filename = ''/tmp/f'', fd = 3\<rparr>,
         scratch = [(''alloc'', 1)]\<rparr>\<rparr>)"
    using all [rule_format, OF h8]
    by (simp add: Mm_init_def example_event_def example_thread_in_syscall_def keys_syscall_def)
  show ?thesis using h7 h8 r7 r8 by simp
qed

subsection \<open>The floor of \<open>count\<close>\<close>

lemma page_alloc_count: "mm_count (mm (snd (page_alloc ev s))) = mm_count (mm s) + 1"
  by (simp add: page_alloc_def Let_def split: sum.splits option.splits prod.splits)

lemma page_free_count:
  "mm_count (mm (snd (page_free ev s))) = (if mm_count (mm s) = 0 then 0 else mm_count (mm s) - 1)"
  by (simp add: page_free_def Let_def split: sum.splits option.splits prod.splits)

lemma dispatch_mm_nonneg:
  "0 \<le> mm_count (mm s) \<Longrightarrow> 0 \<le> mm_count (mm (snd (dispatch_mm e s)))"
  by (cases e) (simp_all add: page_alloc_count page_free_count)

lemma run_mm_nonneg:
  "0 \<le> mm_count (mm s) \<Longrightarrow> 0 \<le> mm_count (mm (snd (run_mm es s)))"
proof (induction es arbitrary: s)
  case Nil
  then show ?case by simp
next
  case (Cons e es)
  obtain r s' where step: "dispatch_mm e s = (r, s')"
    by (cases "dispatch_mm e s")
  from Cons.prems have nn: "0 \<le> mm_count (mm s')"
    using dispatch_mm_nonneg [of s e] step by simp
  show ?case
  proof (cases r)
    case Returned
    then show ?thesis using step Cons.IH [OF nn] by simp
  next
    case (Raised x)
    then show ?thesis using step nn by simp
  qed
qed

text \<open>
  C3. Starting from the state that \<open>Mm.__init__\<close> sets up, \<open>Global.count\<close> is at least 0
  after each event of any sequence of page-alloc and page-free events: the bound holds
  after every prefix \<open>take n evs\<close> of the sequence.
\<close>

theorem count_never_negative:
  "0 \<le> mm_count (mm (snd (run_mm (take n evs) (Mm_init cpus0 tids0))))"
  by (rule run_mm_nonneg) (simp add: Mm_init_def)

subsection \<open>The writeback summary\<close>

text \<open>
  C7. Immediately after a writeback-global-dirty-state event \<open>Global.dirty\<close> is 0, whatever
  it was before.
\<close>

theorem writeback_resets_dirty:
  "mm_dirty (mm (snd (writeback_global_dirty_state ev s))) = 0"
  by (simp add: writeback_global_dirty_state_def)

text \<open>
  C10. A writeback-global-dirty-state event changes nothing but \<open>dirty\<close>: the other three
  global counters, the thread registry, the CPU registry and the dirty-page log are as
  they were.
\<close>

theorem writeback_changes_only_dirty:
  "mm_allocated_pages (mm (snd (writeback_global_dirty_state ev s))) = mm_allocated_pages (mm s) \<and>
   mm_freed_pages (mm (snd (writeback_global_dirty_state ev s))) = mm_freed_pages (mm s) \<and>
   mm_count (mm (snd (writeback_global_dirty_state ev s))) = mm_count (mm s) \<and>
   tids (snd (writeback_global_dirty_state ev s)) = tids s \<and>
   cpus (snd (writeback_global_dirty_state ev s)) = cpus s \<and>
   dirty_pages (snd (writeback_global_dirty_state ev s)) = dirty_pages s"
  by (simp add: writeback_global_dirty_state_def)

section \<open>Properties of the performance counter analysis\<close>

subsection \<open>\<open>str\<close> is injective on the integers\<close>

lemma str_nat_nonempty: "str_nat n \<noteq> []"
  by (subst str_nat.simps) simp

lemma digit_inj:
  "a < 10 \<Longrightarrow> b < 10 \<Longrightarrow> ''0123456789'' ! a = ''0123456789'' ! b \<Longrightarrow> a = b"
  by (simp add: nth_eq_iff_index_eq)

lemma str_nat_digits: "set (str_nat n) \<subseteq> set ''0123456789''"
proof (induction n rule: str_nat.induct)
  case (1 n)
  have d: "\<And>k. k < 10 \<Longrightarrow> ''0123456789'' ! k \<in> set ''0123456789''"
    by (rule nth_mem) simp
  show ?case
  proof (cases "n < 10")
    case True
    then show ?thesis using d [of n] by (subst str_nat.simps) simp
  next
    case False
    have "n mod 10 < 10" by simp
    with False 1 d [of "n mod 10"] show ?thesis by (subst str_nat.simps) simp
  qed
qed

lemma str_nat_inj: "str_nat n = str_nat m \<Longrightarrow> n = m"
proof (induction n arbitrary: m rule: str_nat.induct)
  case (1 n)
  show ?case
  proof (cases "n < 10")
    case small: True
    show ?thesis
    proof (cases "m < 10")
      case True
      with small 1(2) show ?thesis
        by (simp add: str_nat.simps [of n] str_nat.simps [of m] digit_inj)
    next
      case False
      with small 1(2) show ?thesis
        using str_nat_nonempty [of "m div 10"]
        by (simp add: str_nat.simps [of n] str_nat.simps [of m])
    qed
  next
    case big: False
    show ?thesis
    proof (cases "m < 10")
      case True
      with big 1(2) show ?thesis
        using str_nat_nonempty [of "n div 10"]
        by (simp add: str_nat.simps [of n] str_nat.simps [of m])
    next
      case False
      with big 1(2) have eq: "str_nat (n div 10) = str_nat (m div 10)"
        and dg: "''0123456789'' ! (n mod 10) = ''0123456789'' ! (m mod 10)"
        by (simp_all add: str_nat.simps [of n] str_nat.simps [of m])
      from 1(1) [OF big eq] have "n div 10 = m div 10" .
      moreover from dg have "n mod 10 = m mod 10"
        by (intro digit_inj) simp_all
      ultimately show ?thesis
        by (metis div_mult_mod_eq)
    qed
  qed
qed

lemma str_int_inj: "str_int a = str_int b \<Longrightarrow> a = b"
proof -
  assume eq: "str_int a = str_int b"
  have minus: "CHR ''-'' \<notin> set (str_nat k)" for k
    using str_nat_digits [of k] by auto
  have hd: "CHR ''-'' # xs \<noteq> str_nat k" for xs k
    using minus [of k] by (metis list.set_intros(1))
  show ?thesis
  proof (cases "a < 0")
    case na: True
    show ?thesis
    proof (cases "b < 0")
      case True
      with na eq have "nat (- a) = nat (- b)"
        by (simp add: str_int_def str_nat_inj)
      with na True show ?thesis by simp
    next
      case False
      with na eq hd show ?thesis by (simp add: str_int_def)
    qed
  next
    case pa: False
    show ?thesis
    proof (cases "b < 0")
      case True
      with pa eq hd [of "str_nat (nat (- b))" "nat a"] show ?thesis
        by (simp add: str_int_def)
    next
      case False
      with pa eq have "nat a = nat b"
        by (simp add: str_int_def str_nat_inj)
      with pa False show ?thesis by simp
    qed
  qed
qed

subsection \<open>The record that \<open>process_event\<close> builds\<close>

lemma collect_other_key:
  "collect args types st tid items d = Inr d' \<Longrightarrow> k \<notin> fst ` set items \<Longrightarrow>
   map_of d' k = map_of d k"
proof (induction items arbitrary: d)
  case Nil
  then show ?case by simp
next
  case (Cons x items)
  obtain ctx v where x: "x = (ctx, v)" by (cases x)
  from Cons.prems(2) x have ne: "k \<noteq> ctx" and notin: "k \<notin> fst ` set items" by auto
  from Cons.prems(1) x ne Cons.IH [OF _ notin] show ?case
    by (auto simp: AList.update_conv' split: if_splits option.splits)
qed

lemma collect_not_counter:
  "collect args types st tid items d = Inr d' \<Longrightarrow> \<not> startswith k ''perf_'' \<Longrightarrow>
   map_of d' k = map_of d k"
proof (induction items arbitrary: d)
  case Nil
  then show ?case by simp
next
  case (Cons x items)
  obtain ctx v where x: "x = (ctx, v)" by (cases x)
  from Cons.prems x Cons.IH [OF _ Cons.prems(2)] show ?case
    by (auto simp: AList.update_conv' split: if_splits option.splits)
qed

lemma collect_value:
  assumes "collect args types st tid items d = Inr d'"
    and "distinct (map fst items)"
    and "(context, v) \<in> set items"
    and "startswith context ''perf_''"
    and "\<not> (case types of None \<Rightarrow> False | Some l \<Rightarrow> l \<noteq> [] \<and> context \<notin> set l)"
  shows "if args_delta args then map_of d' context = Some v
         else \<exists>t c. map_of (tids st) tid = Some t \<and> map_of (perf t) context = Some c \<and>
                map_of d' context = Some c"
  using assms(1-3)
proof (induction items arbitrary: d)
  case Nil
  then show ?case by simp
next
  case (Cons x items)
  obtain k w where x: "x = (k, w)" by (cases x)
  show ?case
  proof (cases "k = context")
    case True
    with Cons.prems(2,3) x have w: "w = v" and notin: "context \<notin> fst ` set items"
      by (auto simp: image_iff)
    show ?thesis
    proof (cases "args_delta args")
      case True
      with Cons.prems(1) x \<open>k = context\<close> w assms(4,5)
      have "collect args types st tid items (AList.update context v d) = Inr d'"
        by simp
      from collect_other_key [OF this notin] True show ?thesis
        by (simp add: AList.update_conv')
    next
      case False
      with Cons.prems(1) x \<open>k = context\<close> assms(4,5)
      obtain t c where t: "map_of (tids st) tid = Some t"
        and c: "map_of (perf t) context = Some c"
        and rest: "collect args types st tid items (AList.update context c d) = Inr d'"
        by (auto split: option.splits)
      from collect_other_key [OF rest notin] False t c show ?thesis
        by (simp add: AList.update_conv')
    qed
  next
    case False
    with Cons.prems(3) x have mem: "(context, v) \<in> set items" by auto
    from Cons.prems(2) have dist: "distinct (map fst items)" by simp
    from Cons.prems(1) x obtain d1 where "collect args types st tid items d1 = Inr d'"
      by (auto split: if_splits option.splits)
    from Cons.IH [OF this dist mem] show ?thesis .
  qed
qed

lemma collect_delta_total:
  "args_delta args \<Longrightarrow> \<exists>d'. collect args types st tid items d = Inr d'"
  by (induction items arbitrary: d) (auto split: option.splits)

lemma collect_args_tid [simp]:
  "collect (args\<lparr>args_tid := x\<rparr>) types st tid items d = collect args types st tid items d"
  by (induction items arbitrary: d) (auto split: option.splits)

text \<open>
  C8. For a schedule-switch event whose delta map \<open>ret\<close> is not empty, \<open>process_event\<close>
  hands the record \<open>d\<close> that its loop builds to the emitter. For every key of \<open>ret\<close> that
  starts with \<open>perf_\<close> and passes the type filter, the value of \<open>d\<close> is the delta of \<open>ret\<close>
  when \<open>args.delta\<close> is set, and otherwise the cumulative value stored for that counter in
  the thread registry's entry of \<open>prev_tid\<close>. With \<open>args.delta\<close> set the loop cannot fail;
  without it, a missing thread or counter raises \<open>KeyError\<close> and nothing is emitted. The
  keys of the dictionary \<open>ret\<close> are distinct.
\<close>

theorem process_event_record_values:
  assumes "name ev = ''sched_switch''"
    and "switch ev (self_state P) = (ret, st)"
    and "ret \<noteq> []"
    and "distinct (map fst ret)"
  shows "case collect args types st (prev_tid ev) ret
                [(''ts'', timestamp ev), (''tid'', prev_tid ev)] of
           Inl e \<Rightarrow>
             \<not> args_delta args \<and>
             process_event switch process_state args types ev P =
               (Raised e, P\<lparr>self_state := st\<rparr>)
         | Inr d \<Rightarrow>
             process_event switch process_state args types ev P =
               output_perf args ev d (P\<lparr>self_state := st\<rparr>) \<and>
             (\<forall>context v.
                (context, v) \<in> set ret \<and> startswith context ''perf_'' \<and>
                \<not> (case types of None \<Rightarrow> False | Some l \<Rightarrow> l \<noteq> [] \<and> context \<notin> set l) \<longrightarrow>
                (if args_delta args then map_of d context = Some v
                 else \<exists>t c. map_of (tids st) (prev_tid ev) = Some t \<and>
                        map_of (perf t) context = Some c \<and> map_of d context = Some c))"
proof (cases "collect args types st (prev_tid ev) ret
                [(''ts'', timestamp ev), (''tid'', prev_tid ev)]")
  case (Inl e)
  have "\<not> args_delta args"
    using collect_delta_total [of args types st "prev_tid ev" ret
        "[(''ts'', timestamp ev), (''tid'', prev_tid ev)]"] Inl
    by auto
  with Inl assms(1-3) show ?thesis
    by (simp add: process_event_def)
next
  case (Inr d)
  have A: "process_event switch process_state args types ev P =
      output_perf args ev d (P\<lparr>self_state := st\<rparr>)"
    using Inr assms(1-3) by (simp add: process_event_def)
  have B: "\<forall>context v.
      (context, v) \<in> set ret \<and> startswith context ''perf_'' \<and>
      \<not> (case types of None \<Rightarrow> False | Some l \<Rightarrow> l \<noteq> [] \<and> context \<notin> set l) \<longrightarrow>
      (if args_delta args then map_of d context = Some v
       else \<exists>t c. map_of (tids st) (prev_tid ev) = Some t \<and>
              map_of (perf t) context = Some c \<and> map_of d context = Some c)"
    using collect_value [OF Inr assms(4)] by blast
  show ?thesis
    unfolding Inr sum.case by (intro conjI A B)
qed

theorem process_event_record_values_witness:
  "name example_switch_event = ''sched_switch'' \<and>
   process_event (\<lambda>ev st. ([(''perf_x'', 15)], st)) (\<lambda>ev st. st) example_args None
       example_switch_event (Perf_init (Mm_init [] [(100, example_perf_thread)])) =
     output_perf example_args example_switch_event
       [(''ts'', 5), (''tid'', 100), (''perf_x'', 25)]
       (Perf_init (Mm_init [] [(100, example_perf_thread)])) \<and>
   process_event (\<lambda>ev st. ([(''perf_x'', 15)], st)) (\<lambda>ev st. st)
       (example_args\<lparr>args_delta := True\<rparr>) None
       example_switch_event (Perf_init (Mm_init [] [(100, example_perf_thread)])) =
     output_perf (example_args\<lparr>args_delta := True\<rparr>) example_switch_event
       [(''ts'', 5), (''tid'', 100), (''perf_x'', 15)]
       (Perf_init (Mm_init [] [(100, example_perf_thread)]))"
  using process_event_record_values
    [where ev = example_switch_event and switch = "\<lambda>ev st. ([(''perf_x'', 15)], st)"
       and P = "Perf_init (Mm_init [] [(100, example_perf_thread)])"
       and ret = "[(''perf_x'', 15)]" and st = "Mm_init [] [(100, example_perf_thread)]"
       and args = example_args and types = None and process_state = "\<lambda>ev st. st"]
    process_event_record_values
    [where ev = example_switch_event and switch = "\<lambda>ev st. ([(''perf_x'', 15)], st)"
       and P = "Perf_init (Mm_init [] [(100, example_perf_thread)])"
       and ret = "[(''perf_x'', 15)]" and st = "Mm_init [] [(100, example_perf_thread)]"
       and args = "example_args\<lparr>args_delta := True\<rparr>" and types = None
       and process_state = "\<lambda>ev st. st"]
  by (simp add: example_switch_event_def example_args_def example_perf_thread_def
      Perf_init_def Mm_init_def startswith_def)

subsection \<open>The record emitter\<close>

lemma tid_cond:
  "(case args_tid args of None \<Rightarrow> False | Some l \<Rightarrow> l \<noteq> [] \<and> str_int tid \<notin> set l) =
     (\<not> tid_allowed args tid)"
  by (simp add: tid_allowed_def split: option.splits)

lemma pname_cond:
  "(case args_pname args of None \<Rightarrow> False | Some p \<Rightarrow> p \<noteq> c) = (\<not> pname_allowed args c)"
  by (simp add: pname_allowed_def split: option.splits)

lemma window_cond:
  "((case args_start args of None \<Rightarrow> False | Some a \<Rightarrow> a \<noteq> 0 \<and> ts < a) \<or>
    (case args_end args of None \<Rightarrow> False | Some b \<Rightarrow> b \<noteq> 0 \<and> ts > b)) =
     (\<not> in_window args ts)"
  by (auto simp: in_window_def split: option.splits)

lemma output_perf_loop_eq:
  "output_perf_loop args e c tid items (ins, out) =
     (ins \<or> ((truthy (args_json args) \<or> truthy (args_mongo args)) \<and>
             filter (\<lambda>(k, v). startswith k ''perf_'') items \<noteq> []),
      out @ (if args_quiet args then []
             else map (\<lambda>(k, v). (e, c, tid, k, v))
                    (filter (\<lambda>(k, v). startswith k ''perf_'') items)))"
  by (induction items arbitrary: ins out) auto

lemma log_perf_event_json_frame [simp]:
  "self_state (log_perf_event_json ts c tid p ret P) = self_state P"
  "stdout (log_perf_event_json ts c tid p ret P) = stdout P"
  "self_perf (log_perf_event_json ts c tid p ret P) = self_perf P @ [ret]"
  by (simp_all add: log_perf_event_json_def Let_def)


lemma output_perf_unfold:
  "output_perf args ev ret P =
     (if \<not> tid_allowed args (prev_tid ev) then (Returned, P)
      else
        case map_of (tids (self_state P)) (prev_tid ev) of
          None \<Rightarrow> (Raised KeyError, P)
        | Some t \<Rightarrow>
            if \<not> pname_allowed args (comm t) \<or> name ev \<noteq> ''sched_switch'' \<or>
               \<not> in_window args (timestamp ev)
            then (Returned, P)
            else
              let endtime' = (if \<not> args_unixtime args then Ns_to_hour_nsec (timestamp ev)
                              else Unix_seconds (timestamp ev));
                  counters = filter (\<lambda>(k, v). startswith k ''perf_'') ret;
                  P1 = P\<lparr>stdout := stdout P @
                         (if args_quiet args then []
                          else map (\<lambda>(k, v). (endtime', comm t, prev_tid ev, k, v)) counters)\<rparr>
              in if (truthy (args_json args) \<or> truthy (args_mongo args)) \<and> counters \<noteq> []
                 then (Returned,
                       log_perf_event_json endtime' (comm t) (prev_tid ev)
                         (if pid t = - 1 then prev_tid ev else pid t) ret P1)
                 else (Returned, P1))"
proof -
  have w: "in_window args (timestamp ev) \<longleftrightarrow>
      \<not> (case args_start args of None \<Rightarrow> False | Some a \<Rightarrow> a \<noteq> 0 \<and> timestamp ev < a) \<and>
      \<not> (case args_end args of None \<Rightarrow> False | Some b \<Rightarrow> b \<noteq> 0 \<and> timestamp ev > b)"
    using window_cond [where args = args and ts = "timestamp ev"] by blast
  show ?thesis
    unfolding output_perf_def tid_cond pname_cond w Let_def output_perf_loop_eq
    by (simp split: option.splits)
qed





subsection \<open>The tid allow-list\<close>

lemma allowed_args_tid [simp]:
  "pname_allowed (args\<lparr>args_tid := x\<rparr>) c = pname_allowed args c"
  "in_window (args\<lparr>args_tid := x\<rparr>) ts = in_window args ts"
  by (simp_all add: pname_allowed_def in_window_def)

lemma tid_allowed_None [simp]: "tid_allowed (args\<lparr>args_tid := None\<rparr>) tid"
  by (simp add: tid_allowed_def)

lemma tid_allowed_single [simp]:
  "tid_allowed (args\<lparr>args_tid := Some [str_int T]\<rparr>) tid \<longleftrightarrow> tid = T"
  by (auto simp: tid_allowed_def dest: str_int_inj)

lemma filter_lines_same:
  "filter (\<lambda>l. line_tid l = T) (map (\<lambda>(k, v). (e, c, T, k, v)) xs) =
     map (\<lambda>(k, v). (e, c, T, k, v)) xs"
  by (induction xs) (auto simp: line_tid_def)

lemma filter_lines_other:
  "tid \<noteq> T \<Longrightarrow> filter (\<lambda>l. line_tid l = T) (map (\<lambda>(k, v). (e, c, tid, k, v)) xs) = []"
  by (induction xs) (auto simp: line_tid_def)

lemma output_perf_tid_filter:
  assumes st: "self_state PF = self_state PU"
    and sub: "tid_subset T PF PU"
    and d: "map_of d ''tid'' = Some (prev_tid ev)"
    and U: "output_perf (args\<lparr>args_tid := None\<rparr>) ev d PU = (Returned, PU')"
  shows "\<exists>PF'. output_perf (args\<lparr>args_tid := Some [str_int T]\<rparr>) ev d PF = (Returned, PF') \<and>
               self_state PF' = self_state PU' \<and> tid_subset T PF' PU'"
proof -
  from U obtain t where t: "map_of (tids (self_state PU)) (prev_tid ev) = Some t"
    by (auto simp: output_perf_unfold split: option.splits)
  show ?thesis
  proof (cases "prev_tid ev = T")
    case True
    with U t st sub d show ?thesis
      by (auto simp: output_perf_unfold Let_def tid_subset_def filter_lines_same
          split: if_splits)
  next
    case False
    with U t st sub d show ?thesis
      by (auto simp: output_perf_unfold Let_def tid_subset_def filter_lines_other
          split: if_splits)
  qed
qed

lemma process_event_tid_filter:
  assumes st: "self_state PF = self_state PU"
    and sub: "tid_subset T PF PU"
    and U: "process_event switch process_state (args\<lparr>args_tid := None\<rparr>) types ev PU =
              (Returned, PU')"
  shows "\<exists>PF'. process_event switch process_state (args\<lparr>args_tid := Some [str_int T]\<rparr>) types
                 ev PF = (Returned, PF') \<and>
               self_state PF' = self_state PU' \<and> tid_subset T PF' PU'"
proof (cases "name ev = ''sched_switch''")
  case False
  with U st sub show ?thesis
    by (auto simp: process_event_def tid_subset_def split: if_splits)
next
  case True
  obtain ret s' where sw: "switch ev (self_state PU) = (ret, s')"
    by (cases "switch ev (self_state PU)")
  show ?thesis
  proof (cases "ret = []")
    case True
    with \<open>name ev = ''sched_switch''\<close> sw U st sub show ?thesis
      by (auto simp: process_event_def tid_subset_def Let_def)
  next
    case False
    with \<open>name ev = ''sched_switch''\<close> sw U obtain d
      where c: "collect args types s' (prev_tid ev) ret
                  [(''ts'', timestamp ev), (''tid'', prev_tid ev)] = Inr d"
        and out: "output_perf (args\<lparr>args_tid := None\<rparr>) ev d (PU\<lparr>self_state := s'\<rparr>) =
                    (Returned, PU')"
      by (auto simp: process_event_def Let_def split: sum.splits)
    have "map_of d ''tid'' = map_of [(''ts'', timestamp ev), (''tid'', prev_tid ev)] ''tid''"
      using c by (rule collect_not_counter) (simp add: startswith_def)
    then have tid: "map_of d ''tid'' = Some (prev_tid ev)" by simp
    have st': "self_state (PF\<lparr>self_state := s'\<rparr>) = self_state (PU\<lparr>self_state := s'\<rparr>)"
      by simp
    have sub': "tid_subset T (PF\<lparr>self_state := s'\<rparr>) (PU\<lparr>self_state := s'\<rparr>)"
      using sub by (simp add: tid_subset_def)
    from output_perf_tid_filter [OF st' sub' tid out]
    show ?thesis
      using False \<open>name ev = ''sched_switch''\<close> sw c st
      by (simp add: process_event_def Let_def)
  qed
qed

lemma run_tid_filter:
  assumes "self_state PF = self_state PU"
    and "tid_subset T PF PU"
    and "run switch process_state (args\<lparr>args_tid := None\<rparr>) types evs PU = (Returned, PU')"
  shows "\<exists>PF'. run switch process_state (args\<lparr>args_tid := Some [str_int T]\<rparr>) types evs PF =
                 (Returned, PF') \<and>
               self_state PF' = self_state PU' \<and> tid_subset T PF' PU'"
  using assms
proof (induction evs arbitrary: PF PU)
  case Nil
  then show ?case by simp
next
  case (Cons ev evs)
  obtain r P1 where step: "process_event switch process_state (args\<lparr>args_tid := None\<rparr>) types
      ev PU = (r, P1)"
    by (cases "process_event switch process_state (args\<lparr>args_tid := None\<rparr>) types ev PU")
  with Cons.prems(3) have r: "r = Returned"
    by (cases r) simp_all
  with step Cons.prems(3)
  have rest: "run switch process_state (args\<lparr>args_tid := None\<rparr>) types evs P1 = (Returned, PU')"
    by simp
  from process_event_tid_filter [OF Cons.prems(1,2) step [unfolded r]]
  obtain PF1 where f: "process_event switch process_state (args\<lparr>args_tid := Some [str_int T]\<rparr>)
        types ev PF = (Returned, PF1)"
    and st1: "self_state PF1 = self_state P1" and sub1: "tid_subset T PF1 P1"
    by blast
  from Cons.IH [OF st1 sub1 rest] f show ?case by simp
qed


text \<open>
  C5. When the run without a tid allow-list completes, the run with the allow-list
  \<open>{T}\<close> on the same events completes too, and its records (the output buffer and the
  printed lines) are exactly the records of the unfiltered run that have \<open>tid == T\<close>.
  The filters apply in the order tid allow-list, process name, time window: a thread id
  outside the allow-list drops the record before the thread is looked up; for a listed
  thread id the lookup of an unregistered thread raises \<open>KeyError\<close>; for a registered
  thread the record is printed when the process name and the time window admit it, and
  dropped otherwise. A filter that is unset admits everything.
\<close>

theorem tid_allow_list_selects_subset:
  "(run switch process_state (args\<lparr>args_tid := None\<rparr>) types evs (Perf_init st) =
      (Returned, PU) \<longrightarrow>
      (\<exists>PF. run switch process_state (args\<lparr>args_tid := Some [str_int T]\<rparr>) types evs
              (Perf_init st) = (Returned, PF) \<and>
            self_state PF = self_state PU \<and> tid_subset T PF PU)) \<and>
   (\<not> tid_allowed args (prev_tid ev) \<longrightarrow> output_perf args ev ret P = (Returned, P)) \<and>
   (tid_allowed args (prev_tid ev) \<and> map_of (tids (self_state P)) (prev_tid ev) = None \<longrightarrow>
      output_perf args ev ret P = (Raised KeyError, P)) \<and>
   (tid_allowed args (prev_tid ev) \<and> map_of (tids (self_state P)) (prev_tid ev) = Some t \<and>
    name ev = ''sched_switch'' \<longrightarrow>
      (if pname_allowed args (comm t) \<and> in_window args (timestamp ev)
       then fst (output_perf args ev ret P) = Returned \<and>
            stdout (snd (output_perf args ev ret P)) =
              stdout P @
              (if args_quiet args then []
               else map (\<lambda>(k, v).
                           (if \<not> args_unixtime args then Ns_to_hour_nsec (timestamp ev)
                            else Unix_seconds (timestamp ev),
                            comm t, prev_tid ev, k, v))
                      (filter (\<lambda>(k, v). startswith k ''perf_'') ret))
       else output_perf args ev ret P = (Returned, P))) \<and>
   (args_tid args = None \<longrightarrow> tid_allowed args tid) \<and>
   (args_pname args = None \<longrightarrow> pname_allowed args c) \<and>
   (args_start args = None \<and> args_end args = None \<longrightarrow> in_window args ts)"
proof (intro conjI impI)
  assume U: "run switch process_state (args\<lparr>args_tid := None\<rparr>) types evs (Perf_init st) =
      (Returned, PU)"
  have "tid_subset T (Perf_init st) (Perf_init st)"
    by (simp add: tid_subset_def Perf_init_def)
  from run_tid_filter [OF refl this U]
  show "\<exists>PF. run switch process_state (args\<lparr>args_tid := Some [str_int T]\<rparr>) types evs
              (Perf_init st) = (Returned, PF) \<and>
            self_state PF = self_state PU \<and> tid_subset T PF PU" .
next
  assume "\<not> tid_allowed args (prev_tid ev)"
  then show "output_perf args ev ret P = (Returned, P)"
    by (simp add: output_perf_unfold)
next
  assume "tid_allowed args (prev_tid ev) \<and> map_of (tids (self_state P)) (prev_tid ev) = None"
  then show "output_perf args ev ret P = (Raised KeyError, P)"
    by (simp add: output_perf_unfold)
next
  assume "tid_allowed args (prev_tid ev) \<and>
    map_of (tids (self_state P)) (prev_tid ev) = Some t \<and> name ev = ''sched_switch''"
  then show "if pname_allowed args (comm t) \<and> in_window args (timestamp ev)
       then fst (output_perf args ev ret P) = Returned \<and>
            stdout (snd (output_perf args ev ret P)) =
              stdout P @
              (if args_quiet args then []
               else map (\<lambda>(k, v).
                           (if \<not> args_unixtime args then Ns_to_hour_nsec (timestamp ev)
                            else Unix_seconds (timestamp ev),
                            comm t, prev_tid ev, k, v))
                      (filter (\<lambda>(k, v). startswith k ''perf_'') ret))
       else output_perf args ev ret P = (Returned, P)"
    by (simp add: output_perf_unfold Let_def)
next
  assume "args_tid args = None"
  then show "tid_allowed args tid" by (simp add: tid_allowed_def)
next
  assume "args_pname args = None"
  then show "pname_allowed args c" by (simp add: pname_allowed_def)
next
  assume "args_start args = None \<and> args_end args = None"
  then show "in_window args ts" by (simp add: in_window_def)
qed

theorem tid_allow_list_selects_subset_witness:
  "run (\<lambda>ev st. ([(''perf_x'', 15)], st)) (\<lambda>ev st. st)
       (example_args\<lparr>args_json := Some ''out'', args_delta := True, args_tid := None\<rparr>) None
       [example_switch_event, example_switch_event\<lparr>timestamp := 9, prev_tid := 200\<rparr>]
       (Perf_init (Mm_init [] [(100, example_perf_thread), (200, example_perf_thread)])) =
     (Returned,
      \<lparr>self_state = Mm_init [] [(100, example_perf_thread), (200, example_perf_thread)],
       self_perf = [[(''ts'', 5), (''tid'', 100), (''perf_x'', 15)],
                    [(''ts'', 9), (''tid'', 200), (''perf_x'', 15)]],
       self_json_metadata =
         [(100, \<lparr>pname = ''a'', threads = [(''200'', ''a'')]\<rparr>)],
       stdout = [(Ns_to_hour_nsec 5, ''a'', 100, ''perf_x'', 15),
                 (Ns_to_hour_nsec 9, ''a'', 200, ''perf_x'', 15)]\<rparr>) \<and>
   self_perf (snd (run (\<lambda>ev st. ([(''perf_x'', 15)], st)) (\<lambda>ev st. st)
       (example_args\<lparr>args_json := Some ''out'', args_delta := True,
          args_tid := Some [str_int 100]\<rparr>) None
       [example_switch_event, example_switch_event\<lparr>timestamp := 9, prev_tid := 200\<rparr>]
       (Perf_init (Mm_init [] [(100, example_perf_thread), (200, example_perf_thread)])))) =
     [[(''ts'', 5), (''tid'', 100), (''perf_x'', 15)]] \<and>
   stdout (snd (run (\<lambda>ev st. ([(''perf_x'', 15)], st)) (\<lambda>ev st. st)
       (example_args\<lparr>args_json := Some ''out'', args_delta := True,
          args_tid := Some [str_int 100]\<rparr>) None
       [example_switch_event, example_switch_event\<lparr>timestamp := 9, prev_tid := 200\<rparr>]
       (Perf_init (Mm_init [] [(100, example_perf_thread), (200, example_perf_thread)])))) =
     [(Ns_to_hour_nsec 5, ''a'', 100, ''perf_x'', 15)] \<and>
   \<not> tid_allowed (example_args\<lparr>args_tid := Some [str_int 100]\<rparr>) 200 \<and>
   tid_allowed (example_args\<lparr>args_tid := Some [str_int 100]\<rparr>) 100 \<and>
   output_perf (example_args\<lparr>args_tid := Some [str_int 100]\<rparr>)
       (example_switch_event\<lparr>prev_tid := 200\<rparr>) [(''ts'', 5), (''tid'', 200), (''perf_x'', 15)]
       (Perf_init (Mm_init [] [])) =
     (Returned, Perf_init (Mm_init [] []))"
proof -
  let ?sw = "\<lambda>(ev :: event) (st :: state). ([(''perf_x'', 15 :: int)], st)"
  let ?ps = "\<lambda>(ev :: event) (st :: state). st"
  let ?a = "example_args\<lparr>args_json := Some ''out'', args_delta := True\<rparr>"
  let ?evs = "[example_switch_event, example_switch_event\<lparr>timestamp := 9, prev_tid := 200\<rparr>]"
  let ?S = "Mm_init [] [(100, example_perf_thread), (200, example_perf_thread)]"
  let ?PU = "\<lparr>self_state = ?S,
       self_perf = [[(''ts'', 5), (''tid'', 100), (''perf_x'', 15)],
                    [(''ts'', 9), (''tid'', 200), (''perf_x'', 15)]],
       self_json_metadata =
         [(100, \<lparr>pname = ''a'', threads = [(''200'', ''a'')]\<rparr>)],
       stdout = [(Ns_to_hour_nsec 5, ''a'', 100, ''perf_x'', 15),
                 (Ns_to_hour_nsec 9, ''a'', 200, ''perf_x'', 15)]\<rparr>"
  have s200: "str_int 200 = ''200''" and s100: "str_int 100 = ''100''"
    by (simp_all add: str_int_def str_nat.simps)
  have U: "run ?sw ?ps (?a\<lparr>args_tid := None\<rparr>) None ?evs (Perf_init ?S) = (Returned, ?PU)"
    by (simp add: process_event_def output_perf_unfold tid_allowed_def pname_allowed_def
        in_window_def example_args_def example_switch_event_def example_perf_thread_def
        Perf_init_def Mm_init_def startswith_def truthy_def Let_def
        log_perf_event_json_def s200)
  from tid_allow_list_selects_subset
    [where switch = ?sw and process_state = ?ps and args = ?a and types = None
       and evs = ?evs and st = ?S and PU = ?PU and T = 100]
    U
  obtain PF where F: "run ?sw ?ps (?a\<lparr>args_tid := Some [str_int 100]\<rparr>) None ?evs (Perf_init ?S) =
      (Returned, PF)"
    and sub: "tid_subset 100 PF ?PU"
    by blast
  from sub have "self_perf PF = [[(''ts'', 5), (''tid'', 100), (''perf_x'', 15)]]"
    and "stdout PF = [(Ns_to_hour_nsec 5, ''a'', 100, ''perf_x'', 15)]"
    by (simp_all add: tid_subset_def line_tid_def)
  moreover have no: "\<not> tid_allowed (example_args\<lparr>args_tid := Some [str_int 100]\<rparr>) 200"
    and "tid_allowed (example_args\<lparr>args_tid := Some [str_int 100]\<rparr>) 100"
    by (simp_all add: tid_allowed_def s100 s200)
  moreover have "output_perf (example_args\<lparr>args_tid := Some [str_int 100]\<rparr>)
       (example_switch_event\<lparr>prev_tid := 200\<rparr>) [(''ts'', 5), (''tid'', 200), (''perf_x'', 15)]
       (Perf_init (Mm_init [] [])) =
     (Returned, Perf_init (Mm_init [] []))"
  proof -
    have "\<not> tid_allowed (example_args\<lparr>args_tid := Some [str_int 100]\<rparr>)
        (prev_tid (example_switch_event\<lparr>prev_tid := 200\<rparr>))"
      using no by simp
    with tid_allow_list_selects_subset
      [where args = "example_args\<lparr>args_tid := Some [str_int 100]\<rparr>"
         and ev = "example_switch_event\<lparr>prev_tid := 200\<rparr>"
         and ret = "[(''ts'', 5), (''tid'', 200), (''perf_x'', 15)]"
         and P = "Perf_init (Mm_init [] [])"]
    show ?thesis by blast
  qed
  ultimately show ?thesis
    using U F by simp
qed

end
